theory Spec2Isabelle
  imports Complex_Main "HOL-Library.Sublist" "HOL-Library.AList"
begin

section \<open>Runtime values\<close>

text \<open>
  \<^verbatim>\<open>Action.payload\<close> is declared \<^verbatim>\<open>any\<close> and \<^verbatim>\<open>JSON.parse\<close> returns \<^verbatim>\<open>any\<close>, so the
  values that flow through the reducer and out of the store are untyped JavaScript
  values. Strings are lists of code units below 256; numbers are exact rationals, which
  hold array indices and lengths (NaN and the infinities are not represented). An
  object is the list of its own properties in creation order.
\<close>

datatype jsval =
    JUndefined
  | JNull
  | JBool bool
  | JNum rat
  | JStr string
  | JArr "jsval list"
  | JObj "(string \<times> jsval) list"

datatype js_error = TypeError | SyntaxError | QuotaExceededError

text \<open>
  Reading a property, \<^verbatim>\<open>v.k\<close>: a TypeError on \<^verbatim>\<open>null\<close> and \<^verbatim>\<open>undefined\<close>, the own
  property of an object, and \<^verbatim>\<open>undefined\<close> everywhere else. The program reads the
  properties \<^verbatim>\<open>index\<close>, \<^verbatim>\<open>book\<close> and \<^verbatim>\<open>title\<close> only, none of which a built-in
  prototype defines.
\<close>

fun get :: "jsval \<Rightarrow> string \<Rightarrow> js_error + jsval" where
  "get JUndefined k = Inl TypeError"
| "get JNull k = Inl TypeError"
| "get (JObj ps) k = (case map_of ps k of None \<Rightarrow> Inr JUndefined | Some v \<Rightarrow> Inr v)"
| "get v k = Inr JUndefined"

text \<open>
  \<^verbatim>\<open>Array.prototype.filter\<close> and \<^verbatim>\<open>Array.prototype.map\<close> with a callback
  \<^verbatim>\<open>(element, index)\<close>: elements are visited from the left, the index counts up from
  the first argument, and an exception thrown by the callback ends the call.
\<close>

fun Array_filter :: "('a \<Rightarrow> nat \<Rightarrow> js_error + bool) \<Rightarrow> nat \<Rightarrow> 'a list \<Rightarrow> js_error + 'a list" where
  "Array_filter f i [] = Inr []"
| "Array_filter f i (x # xs) =
     (case f x i of
        Inl e \<Rightarrow> Inl e
      | Inr keep \<Rightarrow>
          (case Array_filter f (Suc i) xs of
             Inl e \<Rightarrow> Inl e
           | Inr ys \<Rightarrow> Inr (if keep then x # ys else ys)))"

fun Array_map :: "('a \<Rightarrow> nat \<Rightarrow> js_error + 'b) \<Rightarrow> nat \<Rightarrow> 'a list \<Rightarrow> js_error + 'b list" where
  "Array_map f i [] = Inr []"
| "Array_map f i (x # xs) =
     (case f x i of
        Inl e \<Rightarrow> Inl e
      | Inr y \<Rightarrow>
          (case Array_map f (Suc i) xs of
             Inl e \<Rightarrow> Inl e
           | Inr ys \<Rightarrow> Inr (y # ys)))"

section \<open>Books and actions\<close>

record Book =
  title :: string
  author :: string
  year :: string

text \<open>The object literal \<^verbatim>\<open>{ title, author, year }\<close> as a runtime value.\<close>

definition book_val :: "Book \<Rightarrow> jsval" where
  "book_val b = JObj [(''title'', JStr (title b)), (''author'', JStr (author b)), (''year'', JStr (year b))]"

record action =
  type :: string
  payload :: jsval

section \<open>The reducer\<close>

definition reducer :: "jsval list \<Rightarrow> action \<Rightarrow> js_error + jsval list" where
  "reducer state action =
     (if type action = ''ADD_BOOK'' then Inr (state @ [payload action])
      else if type action = ''DELETE_BOOK'' then
        Array_filter (\<lambda>_ index. Inr (JNum (of_nat index) \<noteq> payload action)) 0 state
      else if type action = ''EDIT_BOOK'' then
        Array_map (\<lambda>book index.
          case get (payload action) ''index'' of
            Inl e \<Rightarrow> Inl e
          | Inr i \<Rightarrow> if JNum (of_nat index) = i then get (payload action) ''book'' else Inr book) 0 state
      else Inr state)"

text \<open>
  The handlers of \<^verbatim>\<open>App\<close> build the action they dispatch; each is modelled by the
  action it hands to the reducer.
\<close>

definition handleAddBook :: "jsval \<Rightarrow> action" where
  "handleAddBook book = \<lparr>type = ''ADD_BOOK'', payload = book\<rparr>"

definition handleDeleteBook :: "int \<Rightarrow> action" where
  "handleDeleteBook index = \<lparr>type = ''DELETE_BOOK'', payload = JNum (of_int index)\<rparr>"

definition handleEditBook :: "int \<Rightarrow> jsval \<Rightarrow> action" where
  "handleEditBook index book =
     \<lparr>type = ''EDIT_BOOK'', payload = JObj [(''index'', JNum (of_int index)), (''book'', book)]\<rparr>"

section \<open>The view\<close>

text \<open>
  \<^verbatim>\<open>String.prototype.toLowerCase\<close> on code units below 256: the letters A to Z and
  the capital letters of Latin-1 (0xC0 to 0xDE without the multiplication sign 0xD7)
  have a lower-case partner, every other code unit maps to itself.
\<close>

definition upper_case :: string where
  "upper_case = ''ABCDEFGHIJKLMNOPQRSTUVWXYZ'' @
     [CHR 0xC0, CHR 0xC1, CHR 0xC2, CHR 0xC3, CHR 0xC4, CHR 0xC5, CHR 0xC6, CHR 0xC7,
      CHR 0xC8, CHR 0xC9, CHR 0xCA, CHR 0xCB, CHR 0xCC, CHR 0xCD, CHR 0xCE, CHR 0xCF,
      CHR 0xD0, CHR 0xD1, CHR 0xD2, CHR 0xD3, CHR 0xD4, CHR 0xD5, CHR 0xD6,
      CHR 0xD8, CHR 0xD9, CHR 0xDA, CHR 0xDB, CHR 0xDC, CHR 0xDD, CHR 0xDE]"

definition lower_case :: string where
  "lower_case = ''abcdefghijklmnopqrstuvwxyz'' @
     [CHR 0xE0, CHR 0xE1, CHR 0xE2, CHR 0xE3, CHR 0xE4, CHR 0xE5, CHR 0xE6, CHR 0xE7,
      CHR 0xE8, CHR 0xE9, CHR 0xEA, CHR 0xEB, CHR 0xEC, CHR 0xED, CHR 0xEE, CHR 0xEF,
      CHR 0xF0, CHR 0xF1, CHR 0xF2, CHR 0xF3, CHR 0xF4, CHR 0xF5, CHR 0xF6,
      CHR 0xF8, CHR 0xF9, CHR 0xFA, CHR 0xFB, CHR 0xFC, CHR 0xFD, CHR 0xFE]"

definition toLowerCase :: "string \<Rightarrow> string" where
  "toLowerCase s =
     map (\<lambda>c. case map_of (zip upper_case lower_case) c of None \<Rightarrow> c | Some l \<Rightarrow> l) s"

text \<open>\<^verbatim>\<open>s.includes(t)\<close>: \<open>t\<close> starts at some position of \<open>s\<close>.\<close>

fun String_includes :: "string \<Rightarrow> string \<Rightarrow> bool" where
  "String_includes [] t = (t = [])"
| "String_includes (c # cs) t = (prefix t (c # cs) \<or> String_includes cs t)"

text \<open>
  \<^verbatim>\<open>state.filter(book => book.title.toLowerCase().includes(searchTerm.toLowerCase()))\<close>.
  Reading \<^verbatim>\<open>title\<close> throws on \<^verbatim>\<open>null\<close> and \<^verbatim>\<open>undefined\<close>, and so does calling
  \<^verbatim>\<open>toLowerCase\<close> on a title that is not a string.
\<close>

definition filteredBooks :: "jsval list \<Rightarrow> string \<Rightarrow> js_error + jsval list" where
  "filteredBooks state searchTerm =
     Array_filter (\<lambda>book _.
       case get book ''title'' of
         Inl e \<Rightarrow> Inl e
       | Inr (JStr t) \<Rightarrow> Inr (String_includes (toLowerCase t) (toLowerCase searchTerm))
       | Inr _ \<Rightarrow> Inl TypeError) 0 state"

text \<open>
  \<^verbatim>\<open>Array.prototype.slice(start, end)\<close> with integer arguments: a negative argument
  counts from the end, both are clamped to the array, and an empty range gives the
  empty array.
\<close>

definition slice :: "'a list \<Rightarrow> int \<Rightarrow> int \<Rightarrow> 'a list" where
  "slice xs start stop =
     (let len = int (length xs);
          k = (if start < 0 then max (len + start) 0 else min start len);
          final = (if stop < 0 then max (len + stop) 0 else min stop len)
      in take (nat (final - k)) (drop (nat k) xs))"

definition booksPerPage :: int where
  "booksPerPage = 5"

definition currentBooks :: "'a list \<Rightarrow> int \<Rightarrow> 'a list" where
  "currentBooks filtered currentPage =
     (let indexOfLastBook = currentPage * booksPerPage;
          indexOfFirstBook = indexOfLastBook - booksPerPage
      in slice filtered indexOfFirstBook indexOfLastBook)"

text \<open>
  The number of page buttons, \<^verbatim>\<open>Math.ceil(filteredBooks.length / booksPerPage)\<close>, with
  the quotient taken exactly.
\<close>

definition totalPages :: "'a list \<Rightarrow> int" where
  "totalPages filtered = \<lceil>rat_of_nat (length filtered) / rat_of_int booksPerPage\<rceil>"

text \<open>
  The buttons of a rendered row. \<^verbatim>\<open>currentBooks.map((book, index) => ...)\<close> hands
  each row its position in the visible page, and that position is what the buttons
  dispatch. The Edit button asks for three strings with \<^verbatim>\<open>prompt\<close>, which returns
  \<^verbatim>\<open>null\<close> when cancelled, and dispatches only when all three are non-empty.
\<close>

definition onClickDelete :: "nat \<Rightarrow> action" where
  "onClickDelete index = handleDeleteBook (int index)"

definition onClickEdit :: "nat \<Rightarrow> string option \<Rightarrow> string option \<Rightarrow> string option \<Rightarrow> action option" where
  "onClickEdit index newTitle newAuthor newYear =
     (case (newTitle, newAuthor, newYear) of
        (Some t, Some a, Some y) \<Rightarrow>
          if t \<noteq> [] \<and> a \<noteq> [] \<and> y \<noteq> []
          then Some (handleEditBook (int index) (book_val \<lparr>title = t, author = a, year = y\<rparr>))
          else None
      | _ \<Rightarrow> None)"

section \<open>JSON\<close>

text \<open>
  \<^verbatim>\<open>JSON.parse\<close> and \<^verbatim>\<open>JSON.stringify\<close> belong to the host. \<^verbatim>\<open>JSON.parse\<close> is
  modelled by recursive descent over the JSON grammar (white space, the literals,
  numbers, strings with their escapes, arrays and objects), on the texts whose value
  the values of this theory hold exactly; on the others the model is silent.
\<close>

definition is_ws :: "char \<Rightarrow> bool" where
  "is_ws c = (c = CHR 0x20 \<or> c = CHR 0x09 \<or> c = CHR 0x0A \<or> c = CHR 0x0D)"

definition skip_ws :: "string \<Rightarrow> string" where
  "skip_ws s = dropWhile is_ws s"

definition is_digit :: "char \<Rightarrow> bool" where
  "is_digit c = (c \<in> set ''0123456789'')"

definition hex_val :: "char \<Rightarrow> nat option" where
  "hex_val c = map_of (zip ''0123456789abcdefABCDEF''
     [0, 1, 2, 3, 4, 5, 6, 7, 8, 9, 10, 11, 12, 13, 14, 15, 10, 11, 12, 13, 14, 15]) c"

definition hex_digit :: "nat \<Rightarrow> char" where
  "hex_digit n = ''0123456789abcdef'' ! n"

definition escapes :: "(char \<times> char) list" where
  "escapes = [(CHR 0x08, CHR ''b''), (CHR 0x09, CHR ''t''), (CHR 0x0A, CHR ''n''),
     (CHR 0x0C, CHR ''f''), (CHR 0x0D, CHR ''r''), (CHR 0x22, CHR 0x22), (CHR 0x5C, CHR 0x5C)]"

definition unescapes :: "(char \<times> char) list" where
  "unescapes = [(CHR ''b'', CHR 0x08), (CHR ''t'', CHR 0x09), (CHR ''n'', CHR 0x0A),
     (CHR ''f'', CHR 0x0C), (CHR ''r'', CHR 0x0D), (CHR 0x22, CHR 0x22), (CHR 0x5C, CHR 0x5C),
     (CHR ''/'', CHR ''/'')]"

text \<open>
  \<^verbatim>\<open>JSON.stringify\<close> on a string: quotes around it, the two-character escapes for
  backspace, tab, line feed, form feed, carriage return, the quote and the backslash,
  the escape with four lower-case hexadecimal digits for the other code units below
  0x20, and every other code unit as it is.
\<close>

definition escape_char :: "char \<Rightarrow> string" where
  "escape_char c =
     (case map_of escapes c of
        Some e \<Rightarrow> [CHR 0x5C, e]
      | None \<Rightarrow>
          if of_char c < (0x20 :: nat)
          then [CHR 0x5C, CHR ''u'', CHR ''0'', CHR ''0'',
                hex_digit (of_char c div 16), hex_digit (of_char c mod 16)]
          else [c])"

definition quote :: "string \<Rightarrow> string" where
  "quote s = CHR 0x22 # concat (map escape_char s) @ [CHR 0x22]"

text \<open>
  The outcome of a parser: the value with the rest of the text; a SyntaxError; or a text
  whose value the values of this theory cannot hold as \<^verbatim>\<open>JSON.parse\<close> returns it, about
  which the parser says nothing.
\<close>

datatype 'a parsed = Parsed 'a string | Syntax_Error | Unmodelled

text \<open>
  The characters of a string after its opening quote, up to the closing quote. A
  hexadecimal escape above \<^verbatim>\<open>00ff\<close> names a code unit that the strings here do not have.
\<close>

fun JSON_string :: "string \<Rightarrow> string parsed" where
  "JSON_string [] = Syntax_Error"
| "JSON_string (c # cs) =
     (if c = CHR 0x22 then Parsed [] cs
      else if c = CHR 0x5C then
        (case cs of
           [] \<Rightarrow> Syntax_Error
         | e # es \<Rightarrow>
             if e = CHR ''u'' then
               (case es of
                  h1 # h2 # h3 # h4 # r \<Rightarrow>
                    (case (hex_val h1, hex_val h2, hex_val h3, hex_val h4) of
                       (Some n1, Some n2, Some n3, Some n4) \<Rightarrow>
                         if n1 = 0 \<and> n2 = 0 then
                           (case JSON_string r of
                              Parsed s r' \<Rightarrow> Parsed (char_of (n3 * 16 + n4) # s) r'
                            | Syntax_Error \<Rightarrow> Syntax_Error
                            | Unmodelled \<Rightarrow> Unmodelled)
                         else Unmodelled
                     | _ \<Rightarrow> Syntax_Error)
                | _ \<Rightarrow> Syntax_Error)
             else
               (case map_of unescapes e of
                  None \<Rightarrow> Syntax_Error
                | Some d \<Rightarrow>
                    (case JSON_string es of
                       Parsed s r \<Rightarrow> Parsed (d # s) r
                     | Syntax_Error \<Rightarrow> Syntax_Error
                     | Unmodelled \<Rightarrow> Unmodelled)))
      else if of_char c < (0x20 :: nat) then Syntax_Error
      else
        (case JSON_string cs of
           Parsed s r \<Rightarrow> Parsed (c # s) r
         | Syntax_Error \<Rightarrow> Syntax_Error
         | Unmodelled \<Rightarrow> Unmodelled))"

definition digits_val :: "string \<Rightarrow> nat" where
  "digits_val ds = foldl (\<lambda>n d. 10 * n + (of_char d - 48)) 0 ds"

text \<open>int: a single 0, or a digit from 1 to 9 followed by digits.\<close>

definition JSON_int :: "string \<Rightarrow> (rat \<times> string) option" where
  "JSON_int s =
     (case s of
        [] \<Rightarrow> None
      | d # ds \<Rightarrow>
          if d = CHR ''0'' then Some (0, ds)
          else if is_digit d then Some (of_nat (digits_val (takeWhile is_digit s)), dropWhile is_digit s)
          else None)"

text \<open>frac: nothing, or a point followed by at least one digit.\<close>

definition JSON_frac :: "string \<Rightarrow> (rat \<times> string) option" where
  "JSON_frac s =
     (case s of
        [] \<Rightarrow> Some (0, s)
      | p # fs \<Rightarrow>
          if p = CHR ''.'' then
            (let ds = takeWhile is_digit fs
             in if ds = [] then None
                else Some (of_nat (digits_val ds) / 10 ^ length ds, dropWhile is_digit fs))
          else Some (0, s))"

text \<open>exp: nothing, or e or E, an optional sign and at least one digit.\<close>

definition JSON_exp :: "string \<Rightarrow> (rat \<times> string) option" where
  "JSON_exp s =
     (case s of
        [] \<Rightarrow> Some (1, s)
      | e # es \<Rightarrow>
          if e = CHR ''e'' \<or> e = CHR ''E'' then
            (let neg = (case es of [] \<Rightarrow> False | g # _ \<Rightarrow> g = CHR ''-'');
                 ds0 = (case es of [] \<Rightarrow> [] | g # gs \<Rightarrow> if g = CHR ''+'' \<or> g = CHR ''-'' then gs else es);
                 ds = takeWhile is_digit ds0
             in if ds = [] then None
                else Some (if neg then 1 / 10 ^ digits_val ds else 10 ^ digits_val ds,
                           dropWhile is_digit ds0))
          else Some (1, s))"

text \<open>
  A number: an optional minus sign, int, frac and exp. \<^verbatim>\<open>JSON.parse\<close> returns the
  double nearest to the value of the literal. That is the value itself when it is an
  integer of magnitude at most \<open>2 ^ 53\<close>; every other literal, and a negative zero, is
  left unmodelled.
\<close>

definition JSON_number :: "string \<Rightarrow> rat parsed" where
  "JSON_number s =
     (let neg = (case s of [] \<Rightarrow> False | g # _ \<Rightarrow> g = CHR ''-'');
          s0 = (if neg then tl s else s)
      in case JSON_int s0 of
           None \<Rightarrow> Syntax_Error
         | Some (i, s1) \<Rightarrow>
             (case JSON_frac s1 of
                None \<Rightarrow> Syntax_Error
              | Some (f, s2) \<Rightarrow>
                  (case JSON_exp s2 of
                     None \<Rightarrow> Syntax_Error
                   | Some (x, s3) \<Rightarrow>
                       if of_int \<lfloor>(i + f) * x\<rfloor> = (i + f) * x \<and> (i + f) * x \<le> 2 ^ 53 \<and>
                          \<not> (neg \<and> (i + f) * x = 0)
                       then Parsed (if neg then - ((i + f) * x) else (i + f) * x) s3
                       else Unmodelled)))"

lemma length_skip_ws: "length (skip_ws s) \<le> length s"
  by (simp add: skip_ws_def length_dropWhile_le)

lemma skip_ws_Cons_length: "skip_ws s = c # cs \<Longrightarrow> length cs < length s"
  using length_skip_ws [of s] by simp

text \<open>
  A value, the elements of an array after the first bracket, and the members of an
  object after the first brace. A repeated key keeps its place and takes the later
  value. The engine lists the keys that are written as integers ahead of the others, in
  ascending order; an object with a key made of digits is left unmodelled. The tests on
  the lengths make the recursion terminate; they hold whenever they are reached, as
  \<open>JSON_value_consumes\<close> shows further down.
\<close>

function JSON_value :: "string \<Rightarrow> jsval parsed"
  and JSON_elements :: "jsval list \<Rightarrow> string \<Rightarrow> jsval parsed"
  and JSON_members :: "(string \<times> jsval) list \<Rightarrow> string \<Rightarrow> jsval parsed"
where
  "JSON_value s =
     (case skip_ws s of
        [] \<Rightarrow> Syntax_Error
      | c # cs \<Rightarrow>
          if c = CHR 0x22 then
            (case JSON_string cs of
               Parsed t r \<Rightarrow> Parsed (JStr t) r
             | Syntax_Error \<Rightarrow> Syntax_Error
             | Unmodelled \<Rightarrow> Unmodelled)
          else if c = CHR ''['' then
            (case skip_ws cs of
               [] \<Rightarrow> Syntax_Error
             | d # ds \<Rightarrow> if d = CHR '']'' then Parsed (JArr []) ds else JSON_elements [] cs)
          else if c = CHR ''{'' then
            (case skip_ws cs of
               [] \<Rightarrow> Syntax_Error
             | d # ds \<Rightarrow> if d = CHR ''}'' then Parsed (JObj []) ds else JSON_members [] cs)
          else if prefix ''true'' (c # cs) then Parsed (JBool True) (drop 4 (c # cs))
          else if prefix ''false'' (c # cs) then Parsed (JBool False) (drop 5 (c # cs))
          else if prefix ''null'' (c # cs) then Parsed JNull (drop 4 (c # cs))
          else
            (case JSON_number (c # cs) of
               Parsed q r \<Rightarrow> Parsed (JNum q) r
             | Syntax_Error \<Rightarrow> Syntax_Error
             | Unmodelled \<Rightarrow> Unmodelled))"
| "JSON_elements acc s =
     (case JSON_value s of
        Syntax_Error \<Rightarrow> Syntax_Error
      | Unmodelled \<Rightarrow> Unmodelled
      | Parsed v r \<Rightarrow>
          if length r < length s then
            (case skip_ws r of
               [] \<Rightarrow> Syntax_Error
             | d # ds \<Rightarrow>
                 if d = CHR '','' then JSON_elements (acc @ [v]) ds
                 else if d = CHR '']'' then Parsed (JArr (acc @ [v])) ds
                 else Syntax_Error)
          else Syntax_Error)"
| "JSON_members acc s =
     (case skip_ws s of
        [] \<Rightarrow> Syntax_Error
      | q # cs \<Rightarrow>
          if q = CHR 0x22 then
            (case JSON_string cs of
               Syntax_Error \<Rightarrow> Syntax_Error
             | Unmodelled \<Rightarrow> Unmodelled
             | Parsed k r \<Rightarrow>
                 (case skip_ws r of
                    [] \<Rightarrow> Syntax_Error
                  | colon # r1 \<Rightarrow>
                      if colon = CHR '':'' \<and> length r1 < length s then
                        (case JSON_value r1 of
                           Syntax_Error \<Rightarrow> Syntax_Error
                         | Unmodelled \<Rightarrow> Unmodelled
                         | Parsed v r2 \<Rightarrow>
                             if length r2 < length r1 then
                               (case skip_ws r2 of
                                  [] \<Rightarrow> Syntax_Error
                                | d # ds \<Rightarrow>
                                    if d = CHR '','' \<or> d = CHR ''}'' then
                                      if k \<noteq> [] \<and> list_all is_digit k then Unmodelled
                                      else if d = CHR '','' then JSON_members (AList.update k v acc) ds
                                      else Parsed (JObj (AList.update k v acc)) ds
                                    else Syntax_Error)
                             else Syntax_Error)
                      else Syntax_Error))
          else Syntax_Error)"
  by pat_completeness auto

termination
  by (relation "measure (\<lambda>x. case x of
        Inl s \<Rightarrow> 2 * length s
      | Inr (Inl (acc, s)) \<Rightarrow> 2 * length s + 1
      | Inr (Inr (acc, s)) \<Rightarrow> 2 * length s + 1)")
    (auto dest: skip_ws_Cons_length)

text \<open>
  \<^verbatim>\<open>JSON.parse\<close>: one value, with nothing but white space after it. On a text left
  unmodelled the answer is the host's, the parameter \<open>beyond\<close>.
\<close>

definition JSON_parse :: "(string \<Rightarrow> js_error + jsval) \<Rightarrow> string \<Rightarrow> js_error + jsval" where
  "JSON_parse beyond text =
     (case JSON_value text of
        Syntax_Error \<Rightarrow> Inl SyntaxError
      | Unmodelled \<Rightarrow> beyond text
      | Parsed v r \<Rightarrow> if skip_ws r = [] then Inr v else Inl SyntaxError)"

text \<open>
  \<^verbatim>\<open>JSON.stringify\<close> at the type the hook is used with, \<^verbatim>\<open>Book[]\<close>: an array of
  objects with the string properties \<^verbatim>\<open>title\<close>, \<^verbatim>\<open>author\<close> and \<^verbatim>\<open>year\<close>, in that
  order and without white space.
\<close>

definition JSON_stringify_book :: "Book \<Rightarrow> string" where
  "JSON_stringify_book b =
     ''{'' @ quote ''title'' @ '':'' @ quote (title b) @ '','' @
     quote ''author'' @ '':'' @ quote (author b) @ '','' @
     quote ''year'' @ '':'' @ quote (year b) @ ''}''"

fun join :: "string list \<Rightarrow> string" where
  "join [] = []"
| "join [x] = x"
| "join (x # y # ys) = x @ '','' @ join (y # ys)"

definition JSON_stringify :: "Book list \<Rightarrow> string" where
  "JSON_stringify books = ''['' @ join (map JSON_stringify_book books) @ '']''"

section \<open>The store and the hook\<close>

text \<open>
  \<^verbatim>\<open>window.localStorage\<close>: the stored strings by key, and the host's decision whether
  a write is taken. \<^verbatim>\<open>getItem\<close> returns \<^verbatim>\<open>null\<close> for a key that is not there;
  \<^verbatim>\<open>setItem\<close> throws when the host refuses the value, for instance over quota.
\<close>

record storage =
  items :: "string \<rightharpoonup> string"
  accepts :: "string \<Rightarrow> string \<Rightarrow> bool"

definition getItem :: "storage \<Rightarrow> string \<Rightarrow> string option" where
  "getItem st key = items st key"

definition setItem :: "storage \<Rightarrow> string \<Rightarrow> string \<Rightarrow> js_error + storage" where
  "setItem st key v =
     (if accepts st key v then Inr (st\<lparr>items := (items st)(key \<mapsto> v)\<rparr>)
      else Inl QuotaExceededError)"

text \<open>
  What \<^verbatim>\<open>useLocalStorage\<close> reads and writes: the store, the console that
  \<^verbatim>\<open>console.error\<close> appends to, and the hook's own \<^verbatim>\<open>storedValue\<close>, of whatever
  values the parser returns.
\<close>

record 'v world =
  localStorage :: storage
  console :: "js_error list"
  storedValue :: 'v

text \<open>
  The initializer passed to \<^verbatim>\<open>useState\<close>. \<^verbatim>\<open>item ? JSON.parse(item) : initialValue\<close>
  takes the initial value for \<^verbatim>\<open>null\<close> and for the empty string, both falsy, without
  parsing; an exception of \<^verbatim>\<open>JSON.parse\<close> is caught, logged and answered with the
  initial value. The parsed value is not inspected. \<^verbatim>\<open>JSON.parse\<close> belongs to the host
  and is the parameter \<open>parse\<close>.
\<close>

definition useLocalStorage_init ::
  "(string \<Rightarrow> js_error + 'v) \<Rightarrow> string \<Rightarrow> 'v \<Rightarrow> 'v world \<Rightarrow> 'v world" where
  "useLocalStorage_init parse key initialValue w =
     (case getItem (localStorage w) key of
        None \<Rightarrow> w\<lparr>storedValue := initialValue\<rparr>
      | Some item \<Rightarrow>
          if item = [] then w\<lparr>storedValue := initialValue\<rparr>
          else
            (case parse item of
               Inl error \<Rightarrow> w\<lparr>console := console w @ [error], storedValue := initialValue\<rparr>
             | Inr v \<Rightarrow> w\<lparr>storedValue := v\<rparr>))"

text \<open>
  \<^verbatim>\<open>setValue\<close>: the argument is a value or a function of the stored value. The stored
  value is set first, then the store is written; an exception of \<^verbatim>\<open>setItem\<close> is caught
  and logged.
\<close>

definition setValue ::
  "string \<Rightarrow> Book list + (jsval \<Rightarrow> Book list) \<Rightarrow> jsval world \<Rightarrow> jsval world" where
  "setValue key v w =
     (let valueToStore = (case v of Inl books \<Rightarrow> books | Inr f \<Rightarrow> f (storedValue w));
          w' = w\<lparr>storedValue := JArr (map book_val valueToStore)\<rparr>
      in case setItem (localStorage w') key (JSON_stringify valueToStore) of
           Inl error \<Rightarrow> w'\<lparr>console := console w' @ [error]\<rparr>
         | Inr st \<Rightarrow> w'\<lparr>localStorage := st\<rparr>)"

text \<open>
  A stored text written by hand rather than by \<^verbatim>\<open>JSON.stringify\<close>, with white space
  between the tokens: an array of one book.
\<close>

definition spaced_text :: string where
  "spaced_text = '' [ { '' @ quote ''title'' @ '' : '' @ quote ''Dune'' @ '' , '' @
     quote ''author'' @ '' : '' @ quote ''Herbert'' @ '' , '' @
     quote ''year'' @ '' : '' @ quote ''1965'' @ '' } ] ''"

section \<open>Properties of the reducer\<close>

lemma index_eq_iff: "(of_nat i = (of_int p :: rat)) = (int i = p)"
proof -
  have "(of_nat i = (of_int p :: rat)) = ((of_int (int i) :: rat) = of_int p)"
    by simp
  also have "\<dots> = (int i = p)"
    by (rule of_int_eq_iff)
  finally show ?thesis .
qed

lemma filter_index_miss:
  "p < int i \<or> int i + int (length xs) \<le> p \<Longrightarrow>
   Array_filter (\<lambda>_ index. Inr (int index \<noteq> p)) i xs = Inr xs"
  by (induction xs arbitrary: i) auto

lemma filter_index_hit:
  "n < length xs \<Longrightarrow>
   Array_filter (\<lambda>_ index. Inr (int index \<noteq> int (i + n))) i xs = Inr (take n xs @ drop (Suc n) xs)"
proof (induction xs arbitrary: i n)
  case Nil
  then show ?case by simp
next
  case (Cons x xs)
  show ?case
  proof (cases n)
    case 0
    have "Array_filter (\<lambda>_ index. Inr (int index \<noteq> int i)) (Suc i) xs = Inr xs"
      by (rule filter_index_miss) simp
    with 0 show ?thesis by simp
  next
    case (Suc m)
    with Cons.prems have "m < length xs" by simp
    from Cons.IH [OF this, of "Suc i"] Suc show ?thesis by simp
  qed
qed

lemma map_index_miss:
  "p < int i \<or> int i + int (length xs) \<le> p \<Longrightarrow>
   Array_map (\<lambda>book index. if int index = p then Inr r else Inr book) i xs = Inr xs"
  by (induction xs arbitrary: i) auto

lemma map_index_hit:
  "n < length xs \<Longrightarrow>
   Array_map (\<lambda>book index. if int index = int (i + n) then Inr r else Inr book) i xs = Inr (xs[n := r])"
proof (induction xs arbitrary: i n)
  case Nil
  then show ?case by simp
next
  case (Cons x xs)
  show ?case
  proof (cases n)
    case 0
    have "Array_map (\<lambda>book index. if int index = int i then Inr r else Inr book) (Suc i) xs = Inr xs"
      by (rule map_index_miss) simp
    with 0 show ?thesis by simp
  next
    case (Suc m)
    with Cons.prems have "m < length xs" by simp
    from Cons.IH [OF this, of "Suc i"] Suc show ?thesis by simp
  qed
qed

lemma reducer_delete:
  "reducer C (handleDeleteBook p) = Array_filter (\<lambda>_ index. Inr (int index \<noteq> p)) 0 C"
  by (simp add: reducer_def handleDeleteBook_def index_eq_iff)

lemma reducer_edit:
  "reducer C (handleEditBook p r) =
     Array_map (\<lambda>book index. if int index = p then Inr r else Inr book) 0 C"
  by (simp add: reducer_def handleEditBook_def index_eq_iff cong: if_cong)

text \<open>
  C1. A position \<open>p\<close> outside \<open>[0, len(C))\<close> leaves the collection unchanged under both
  Delete and Edit. A position inside the bounds makes Delete return the collection
  without the element at \<open>p\<close>, one element shorter and with the others in their order,
  and makes Edit return the collection with the element at \<open>p\<close> replaced by \<open>r\<close> and
  every other element unchanged.
\<close>

theorem delete_edit_by_position:
  "(p < 0 \<or> int (length C) \<le> p \<longrightarrow>
      reducer C (handleDeleteBook p) = Inr C \<and> reducer C (handleEditBook p r) = Inr C) \<and>
   (0 \<le> p \<and> p < int (length C) \<longrightarrow>
      reducer C (handleDeleteBook p) = Inr (take (nat p) C @ drop (Suc (nat p)) C) \<and>
      length (take (nat p) C @ drop (Suc (nat p)) C) = length C - 1 \<and>
      reducer C (handleEditBook p r) = Inr (C[nat p := r]) \<and>
      length (C[nat p := r]) = length C \<and>
      (C[nat p := r]) ! nat p = r \<and>
      (\<forall>i < length C. i \<noteq> nat p \<longrightarrow> (C[nat p := r]) ! i = C ! i))"
proof (intro conjI impI)
  assume out: "p < 0 \<or> int (length C) \<le> p"
  then have miss: "p < int 0 \<or> int 0 + int (length C) \<le> p" by simp
  show "reducer C (handleDeleteBook p) = Inr C"
    unfolding reducer_delete using miss by (rule filter_index_miss)
  show "reducer C (handleEditBook p r) = Inr C"
    unfolding reducer_edit using miss by (rule map_index_miss)
next
  assume inb: "0 \<le> p \<and> p < int (length C)"
  then have n: "nat p < length C" and p: "p = int (0 + nat p)" by linarith+
  show "reducer C (handleDeleteBook p) = Inr (take (nat p) C @ drop (Suc (nat p)) C)"
    unfolding reducer_delete by (subst p) (rule filter_index_hit [OF n])
  show "reducer C (handleEditBook p r) = Inr (C[nat p := r])"
    unfolding reducer_edit by (subst p) (rule map_index_hit [OF n])
  show "length (take (nat p) C @ drop (Suc (nat p)) C) = length C - 1"
    using n by simp
  show "length (C[nat p := r]) = length C" by simp
  show "(C[nat p := r]) ! nat p = r" using n by simp
  show "\<forall>i < length C. i \<noteq> nat p \<longrightarrow> (C[nat p := r]) ! i = C ! i" by simp
qed

theorem delete_edit_by_position_witness:
  "reducer [JStr ''a'', JStr ''b'', JStr ''c''] (handleDeleteBook 1) = Inr [JStr ''a'', JStr ''c''] \<and>
   reducer [JStr ''a'', JStr ''b'', JStr ''c''] (handleEditBook 1 (JStr ''r'')) = Inr [JStr ''a'', JStr ''r'', JStr ''c''] \<and>
   reducer [JStr ''a'', JStr ''b'', JStr ''c''] (handleDeleteBook 3) = Inr [JStr ''a'', JStr ''b'', JStr ''c''] \<and>
   reducer [JStr ''a'', JStr ''b'', JStr ''c''] (handleEditBook (- 1) (JStr ''r'')) = Inr [JStr ''a'', JStr ''b'', JStr ''c'']"
  using delete_edit_by_position [of 1 "[JStr ''a'', JStr ''b'', JStr ''c'']" "JStr ''r''"]
    delete_edit_by_position [of 3 "[JStr ''a'', JStr ''b'', JStr ''c'']" "JStr ''r''"]
    delete_edit_by_position [of "- 1" "[JStr ''a'', JStr ''b'', JStr ''c'']" "JStr ''r''"]
  by simp

text \<open>
  C2. Add always succeeds: the result is one element longer, its last element is the
  added record and its first \<open>len(C)\<close> elements are the collection, in order.
\<close>

theorem add_appends:
  "reducer C (handleAddBook r) = Inr (C @ [r]) \<and>
   length (C @ [r]) = length C + 1 \<and>
   last (C @ [r]) = r \<and>
   take (length C) (C @ [r]) = C"
  by (simp add: reducer_def handleAddBook_def)

lemma Array_filter_total:
  "\<exists>ys. Array_filter (\<lambda>x i. Inr (f x i)) i xs = Inr ys"
proof (induction xs arbitrary: i)
  case Nil
  show ?case by simp
next
  case (Cons x xs)
  from Cons [of "Suc i"] obtain ys where "Array_filter (\<lambda>x i. Inr (f x i)) (Suc i) xs = Inr ys" ..
  then show ?case by simp
qed

lemma Array_map_total:
  "\<exists>ys. Array_map (\<lambda>x i. Inr (f x i)) i xs = Inr ys"
proof (induction xs arbitrary: i)
  case Nil
  show ?case by simp
next
  case (Cons x xs)
  from Cons [of "Suc i"] obtain ys where "Array_map (\<lambda>x i. Inr (f x i)) (Suc i) xs = Inr ys" ..
  then show ?case by simp
qed

lemma get_defined:
  "v \<noteq> JNull \<Longrightarrow> v \<noteq> JUndefined \<Longrightarrow> \<exists>w. get v k = Inr w"
  by (cases v) (auto split: option.splits)

text \<open>
  C3, as the claim states it, fails: an \<^verbatim>\<open>EDIT_BOOK\<close> action whose payload is
  \<^verbatim>\<open>null\<close> makes the callback of \<^verbatim>\<open>state.map\<close> read \<^verbatim>\<open>action.payload.index\<close> of
  \<^verbatim>\<open>null\<close>, and the reducer throws a TypeError on a collection of one record.
\<close>

theorem reducer_throws_on_null_edit:
  "reducer [book_val \<lparr>title = ''Dune'', author = ''Herbert'', year = ''1965''\<rparr>]
     \<lparr>type = ''EDIT_BOOK'', payload = JNull\<rparr> = Inl TypeError"
  by (simp add: reducer_def)

text \<open>
  C3, amended. The reducer returns a collection without throwing for every action
  except an \<^verbatim>\<open>EDIT_BOOK\<close> whose payload is \<^verbatim>\<open>null\<close> or \<^verbatim>\<open>undefined\<close> applied to a
  non-empty collection; in particular for every action of an unrecognized type, which
  returns the input collection unchanged.
\<close>

theorem reducer_total:
  "((type a = ''EDIT_BOOK'' \<longrightarrow> C = [] \<or> (payload a \<noteq> JNull \<and> payload a \<noteq> JUndefined)) \<longrightarrow>
      (\<exists>C'. reducer C a = Inr C')) \<and>
   (type a \<noteq> ''ADD_BOOK'' \<and> type a \<noteq> ''DELETE_BOOK'' \<and> type a \<noteq> ''EDIT_BOOK'' \<longrightarrow>
      reducer C a = Inr C)"
proof (intro conjI impI)
  assume "type a \<noteq> ''ADD_BOOK'' \<and> type a \<noteq> ''DELETE_BOOK'' \<and> type a \<noteq> ''EDIT_BOOK''"
  then show "reducer C a = Inr C" by (simp add: reducer_def)
next
  assume edit: "type a = ''EDIT_BOOK'' \<longrightarrow> C = [] \<or> (payload a \<noteq> JNull \<and> payload a \<noteq> JUndefined)"
  consider (add) "type a = ''ADD_BOOK''" | (delete) "type a = ''DELETE_BOOK''"
    | (edit_empty) "type a = ''EDIT_BOOK''" "C = []"
    | (edit_payload) "type a = ''EDIT_BOOK''" "payload a \<noteq> JNull" "payload a \<noteq> JUndefined"
    | (other) "type a \<noteq> ''ADD_BOOK''" "type a \<noteq> ''DELETE_BOOK''" "type a \<noteq> ''EDIT_BOOK''"
    using edit by blast
  then show "\<exists>C'. reducer C a = Inr C'"
  proof cases
    case add
    then show ?thesis by (simp add: reducer_def)
  next
    case delete
    then show ?thesis
      using Array_filter_total [of "\<lambda>_ index. JNum (of_nat index) \<noteq> payload a" 0 C]
      by (simp add: reducer_def)
  next
    case edit_empty
    then show ?thesis by (simp add: reducer_def)
  next
    case edit_payload
    from get_defined [OF edit_payload(2,3)] obtain i b
      where i: "get (payload a) ''index'' = Inr i" and b: "get (payload a) ''book'' = Inr b"
      by blast
    have "(\<lambda>book index. case get (payload a) ''index'' of Inl e \<Rightarrow> Inl e
             | Inr j \<Rightarrow> if JNum (of_nat index) = j then get (payload a) ''book'' else Inr book)
          = (\<lambda>book index. Inr (if JNum (of_nat index) = i then b else book))"
      by (auto simp: i b fun_eq_iff)
    then show ?thesis
      using Array_map_total [of "\<lambda>book index. if JNum (of_nat index) = i then b else book" 0 C]
      by (simp add: reducer_def edit_payload(1))
  next
    case other
    then show ?thesis by (simp add: reducer_def)
  qed
qed

theorem reducer_total_witness:
  "(\<exists>C'. reducer [JStr ''a''] \<lparr>type = ''EDIT_BOOK'', payload = JNum 7\<rparr> = Inr C') \<and>
   reducer [JStr ''a''] \<lparr>type = ''RESET'', payload = JNull\<rparr> = Inr [JStr ''a'']"
  using reducer_total [of "\<lparr>type = ''EDIT_BOOK'', payload = JNum 7\<rparr>" "[JStr ''a'']"]
    reducer_total [of "\<lparr>type = ''RESET'', payload = JNull\<rparr>" "[JStr ''a'']"]
  by simp

section \<open>Properties of the view\<close>

lemma String_includes_sublist: "String_includes s t = sublist t s"
  by (induction s) (auto simp: sublist_Cons_right)

lemma toLowerCase_Nil: "toLowerCase [] = []"
  by (simp add: toLowerCase_def)

lemma filter_books_from:
  "Array_filter (\<lambda>book _.
       case get book ''title'' of
         Inl e \<Rightarrow> Inl e
       | Inr (JStr t) \<Rightarrow> Inr (String_includes (toLowerCase t) (toLowerCase searchTerm))
       | Inr _ \<Rightarrow> Inl TypeError) i (map book_val C)
   = Inr (map book_val [r \<leftarrow> C. sublist (toLowerCase searchTerm) (toLowerCase (title r))])"
  by (induction C arbitrary: i) (simp_all add: book_val_def String_includes_sublist)

text \<open>
  C4. On a collection of book records the filter never throws, and the filtered
  sequence is exactly the records whose lower-cased title contains the lower-cased
  search term as a substring, in their original order; the empty term keeps every
  record.
\<close>

theorem filter_by_title:
  "filteredBooks (map book_val C) searchTerm
     = Inr (map book_val [r \<leftarrow> C. sublist (toLowerCase searchTerm) (toLowerCase (title r))]) \<and>
   filteredBooks (map book_val C) [] = Inr (map book_val C)"
  by (simp add: filteredBooks_def filter_books_from toLowerCase_Nil)

lemma totalPages_div: "totalPages xs = (int (length xs) + 4) div 5"
  by (simp add: totalPages_def booksPerPage_def ceiling_unique)

lemma slice_window:
  assumes "0 \<le> lo"
  shows "slice xs lo (lo + 5) = take 5 (drop (nat lo) xs)"
proof -
  let ?len = "int (length xs)"
  have unfold: "slice xs lo (lo + 5)
      = take (nat (min (lo + 5) ?len - min lo ?len)) (drop (nat (min lo ?len)) xs)"
    using assms by (simp add: slice_def Let_def)
  consider (inside) "lo + 5 \<le> ?len" | (partial) "lo \<le> ?len" "?len < lo + 5" | (beyond) "?len < lo"
    by linarith
  then show ?thesis
  proof cases
    case inside
    then have "min (lo + 5) ?len = lo + 5" "min lo ?len = lo" by simp_all
    with unfold show ?thesis by simp
  next
    case partial
    then have m: "min (lo + 5) ?len = ?len" "min lo ?len = lo" by simp_all
    have "length (drop (nat lo) xs) \<le> 5" "length (drop (nat lo) xs) \<le> nat (?len - lo)"
      using partial assms by simp_all
    then have "take 5 (drop (nat lo) xs) = drop (nat lo) xs"
      "take (nat (?len - lo)) (drop (nat lo) xs) = drop (nat lo) xs"
      by simp_all
    with unfold m show ?thesis by simp
  next
    case beyond
    then have m: "min (lo + 5) ?len = ?len" "min lo ?len = ?len" by simp_all
    from beyond have "length xs \<le> nat lo" by simp
    then have "drop (nat lo) xs = []" by simp
    with unfold m show ?thesis by simp
  qed
qed

lemma currentBooks_take_drop:
  assumes "1 \<le> p"
  shows "currentBooks xs p = take 5 (drop (nat ((p - 1) * 5)) xs)"
proof -
  have lo: "p * 5 - 5 = (p - 1) * 5" and hi: "p * 5 = (p - 1) * 5 + 5"
    by (simp_all add: algebra_simps)
  have "currentBooks xs p = slice xs ((p - 1) * 5) ((p - 1) * 5 + 5)"
    unfolding currentBooks_def booksPerPage_def Let_def lo by (subst hi) (rule refl)
  also have "\<dots> = take 5 (drop (nat ((p - 1) * 5)) xs)"
    using assms by (intro slice_window) simp
  finally show ?thesis .
qed

lemma window_nth:
  "hi \<le> length xs \<Longrightarrow> map ((!) xs) [lo ..< hi] = take (hi - lo) (drop lo xs)"
  by (rule nth_equalityI) auto

text \<open>
  C5. For every page number from 1 on, the visible page is the window
  \<open>[(pageNumber - 1) * pageSize, pageNumber * pageSize)\<close> of the filtered sequence, cut
  at its end, and is empty when the window starts at or beyond the end. The number of
  pages is the ceiling of the filtered count over the page size, 0 for the empty
  sequence. With 12 filtered records there are 3 pages; page 1 holds 5 records, page 3
  holds 2 and page 4 none.
\<close>

theorem pagination_window:
  "(1 \<le> p \<longrightarrow>
      currentBooks xs p
        = map ((!) xs) [nat ((p - 1) * booksPerPage) ..< min (nat (p * booksPerPage)) (length xs)] \<and>
      (int (length xs) \<le> (p - 1) * booksPerPage \<longrightarrow> currentBooks xs p = [])) \<and>
   int (length xs) \<le> totalPages xs * booksPerPage \<and>
   totalPages xs * booksPerPage < int (length xs) + booksPerPage \<and>
   (xs = [] \<longrightarrow> totalPages xs = 0) \<and>
   (length xs = 12 \<longrightarrow>
      totalPages xs = 3 \<and> length (currentBooks xs 1) = 5 \<and>
      length (currentBooks xs 3) = 2 \<and> currentBooks xs 4 = [])"
proof (intro conjI impI)
  assume p: "1 \<le> p"
  let ?lo = "nat ((p - 1) * 5)" and ?hi = "min (nat (p * 5)) (length xs)"
  have "map ((!) xs) [?lo ..< ?hi] = take (?hi - ?lo) (drop ?lo xs)"
    by (rule window_nth) simp
  also have "\<dots> = take 5 (drop ?lo xs)"
  proof (cases "nat (p * 5) \<le> length xs")
    case True
    moreover have "nat (p * 5) - ?lo = 5" using p by (simp add: nat_diff_distrib algebra_simps)
    ultimately show ?thesis by (simp add: min_def)
  next
    case False
    then show ?thesis by (simp add: min_def)
  qed
  finally show "currentBooks xs p = map ((!) xs) [nat ((p - 1) * booksPerPage) ..< min (nat (p * booksPerPage)) (length xs)]"
    using p by (simp add: currentBooks_take_drop booksPerPage_def)
  assume "int (length xs) \<le> (p - 1) * booksPerPage"
  then show "currentBooks xs p = []"
    using p by (simp add: currentBooks_take_drop booksPerPage_def)
next
  show "int (length xs) \<le> totalPages xs * booksPerPage"
    unfolding totalPages_div booksPerPage_def by presburger
  show "totalPages xs * booksPerPage < int (length xs) + booksPerPage"
    unfolding totalPages_div booksPerPage_def by presburger
next
  assume "xs = []"
  then show "totalPages xs = 0" by (simp add: totalPages_div)
next
  assume len: "length xs = 12"
  then show "totalPages xs = 3" by (simp add: totalPages_div)
  from len show "length (currentBooks xs 1) = 5" by (simp add: currentBooks_take_drop)
  from len show "length (currentBooks xs 3) = 2" by (simp add: currentBooks_take_drop)
  from len show "currentBooks xs 4 = []" by (simp add: currentBooks_take_drop)
qed

theorem pagination_window_witness:
  "currentBooks [1, 2, 3, 4, 5, 6, 7, 8, 9, 10, 11, 12 :: nat] 3 = [11, 12] \<and>
   currentBooks [1, 2, 3, 4, 5, 6, 7, 8, 9, 10, 11, 12 :: nat] 4 = [] \<and>
   totalPages [1, 2, 3, 4, 5, 6, 7, 8, 9, 10, 11, 12 :: nat] = 3 \<and>
   totalPages ([] :: nat list) = 0"
  using pagination_window [of 3 "[1, 2, 3, 4, 5, 6, 7, 8, 9, 10, 11, 12 :: nat]"]
    pagination_window [of 4 "[1, 2, 3, 4, 5, 6, 7, 8, 9, 10, 11, 12 :: nat]"]
    pagination_window [of 1 "[] :: nat list"]
  by (simp add: booksPerPage_def upt_conv_Cons)

text \<open>
  C9. The rows dispatch their position in the visible page, which the reducer reads as
  a position in the full collection. There are a collection, a search term and a page
  number where the two differ: the row shows one record, and its Delete and Edit
  buttons remove and replace another record, leaving the displayed one in place.
\<close>

theorem visible_index_diverges:
  "\<exists>C searchTerm currentPage filtered i C' C'' a.
     filteredBooks C searchTerm = Inr filtered \<and>
     i < length (currentBooks filtered currentPage) \<and> i < length C \<and>
     currentBooks filtered currentPage ! i \<noteq> C ! i \<and>
     reducer C (onClickDelete i) = Inr C' \<and>
     currentBooks filtered currentPage ! i \<in> set C' \<and> C ! i \<notin> set C' \<and>
     onClickEdit i (Some ''Emma'') (Some ''Austen'') (Some ''1815'') = Some a \<and>
     reducer C a = Inr C'' \<and>
     currentBooks filtered currentPage ! i \<in> set C'' \<and> C ! i \<notin> set C''"
proof -
  define dune where "dune = book_val \<lparr>title = ''Dune'', author = ''Herbert'', year = ''1965''\<rparr>"
  define foundation where
    "foundation = book_val \<lparr>title = ''Foundation'', author = ''Asimov'', year = ''1951''\<rparr>"
  define emma where "emma = book_val \<lparr>title = ''Emma'', author = ''Austen'', year = ''1815''\<rparr>"
  have ne: "foundation \<noteq> dune" "emma \<noteq> dune" "foundation \<noteq> emma"
    by (simp_all add: dune_def foundation_def emma_def book_val_def)
  have filtered: "filteredBooks [dune, foundation] ''found'' = Inr [foundation]"
    by (simp add: filteredBooks_def dune_def foundation_def book_val_def
        toLowerCase_def upper_case_def lower_case_def)
  have page: "currentBooks [foundation] 1 = [foundation]"
    by (simp add: currentBooks_take_drop)
  have delete: "reducer [dune, foundation] (onClickDelete 0) = Inr [foundation]"
    by (simp add: onClickDelete_def reducer_delete)
  have click: "onClickEdit 0 (Some ''Emma'') (Some ''Austen'') (Some ''1815'')
      = Some (handleEditBook 0 emma)"
    by (simp add: onClickEdit_def emma_def)
  have edit: "reducer [dune, foundation] (handleEditBook 0 emma) = Inr [emma, foundation]"
    by (simp add: reducer_edit)
  have "filteredBooks [dune, foundation] ''found'' = Inr [foundation] \<and>
     0 < length (currentBooks [foundation] 1) \<and> 0 < length [dune, foundation] \<and>
     currentBooks [foundation] 1 ! 0 \<noteq> [dune, foundation] ! 0 \<and>
     reducer [dune, foundation] (onClickDelete 0) = Inr [foundation] \<and>
     currentBooks [foundation] 1 ! 0 \<in> set [foundation] \<and> [dune, foundation] ! 0 \<notin> set [foundation] \<and>
     onClickEdit 0 (Some ''Emma'') (Some ''Austen'') (Some ''1815'') = Some (handleEditBook 0 emma) \<and>
     reducer [dune, foundation] (handleEditBook 0 emma) = Inr [emma, foundation] \<and>
     currentBooks [foundation] 1 ! 0 \<in> set [emma, foundation] \<and>
     [dune, foundation] ! 0 \<notin> set [emma, foundation]"
    using ne by (simp add: filtered page delete click edit)
  then show ?thesis by blast
qed

section \<open>Round trip\<close>

lemma escapes_unescapes:
  "map_of escapes c = Some e \<Longrightarrow> e \<noteq> CHR ''u'' \<and> map_of unescapes e = Some c"
  by (auto simp: escapes_def unescapes_def split: if_splits)

lemma escapes_None:
  "map_of escapes c = None \<Longrightarrow> c \<noteq> CHR 0x22 \<and> c \<noteq> CHR 0x5C"
  by (auto simp: escapes_def split: if_splits)

lemma hex_val_hex_digit: "n < 16 \<Longrightarrow> hex_val (hex_digit n) = Some n"
proof -
  assume "n < 16"
  then have "n \<in> set [0 ..< 16]" by simp
  moreover have "list_all (\<lambda>k. hex_val (hex_digit k) = Some k) [0 ..< 16]"
    by code_simp
  ultimately show ?thesis by (simp only: list_all_iff)
qed

lemma hex_val_zero: "hex_val (CHR ''0'') = Some 0"
  by (simp add: hex_val_def)

lemma JSON_string_escape_char:
  "JSON_string (escape_char c @ rest) =
     (case JSON_string rest of
        Parsed s r \<Rightarrow> Parsed (c # s) r
      | Syntax_Error \<Rightarrow> Syntax_Error
      | Unmodelled \<Rightarrow> Unmodelled)"
proof (cases "map_of escapes c")
  case (Some e)
  from escapes_unescapes [OF Some] show ?thesis
    by (simp add: escape_char_def Some)
next
  case None
  note esc = escapes_None [OF None]
  show ?thesis
  proof (cases "of_char c < (0x20 :: nat)")
    case True
    then have d: "of_char c div 16 < (16 :: nat)" and m: "of_char c mod 16 < (16 :: nat)"
      by simp_all
    have c: "char_of ((of_char c :: nat) div 16 * 16 + of_char c mod 16) = c"
      by simp
    show ?thesis
      by (simp add: escape_char_def None True hex_val_zero hex_val_hex_digit [OF d]
          hex_val_hex_digit [OF m] c split: parsed.split)
  next
    case False
    with esc show ?thesis by (simp add: escape_char_def None)
  qed
qed

lemma JSON_string_quoted:
  "JSON_string (concat (map escape_char s) @ CHR 0x22 # rest) = Parsed s rest"
  by (induction s) (simp_all add: JSON_string_escape_char)

lemma JSON_string_quote: "JSON_string (tl (quote s) @ rest) = Parsed s rest"
  by (simp add: quote_def JSON_string_quoted)

declare JSON_value.simps [simp del] JSON_elements.simps [simp del] JSON_members.simps [simp del]

lemma skip_ws_quote: "skip_ws (quote s @ rest) = CHR 0x22 # tl (quote s) @ rest"
  by (simp add: skip_ws_def is_ws_def quote_def)

lemma length_quote: "quote s \<noteq> []"
  by (simp add: quote_def)

lemma JSON_value_quote: "JSON_value (quote s @ rest) = Parsed (JStr s) rest"
  by (subst JSON_value.simps) (simp add: skip_ws_quote JSON_string_quote)

lemma skip_ws_punct:
  "skip_ws (CHR '':'' # rest) = CHR '':'' # rest"
  "skip_ws (CHR '','' # rest) = CHR '','' # rest"
  "skip_ws (CHR ''}'' # rest) = CHR ''}'' # rest"
  "skip_ws (CHR '']'' # rest) = CHR '']'' # rest"
  "skip_ws (CHR ''{'' # rest) = CHR ''{'' # rest"
  "skip_ws (CHR ''['' # rest) = CHR ''['' # rest"
  "skip_ws [] = []"
  by (simp_all add: skip_ws_def is_ws_def)

lemma JSON_members_more:
  "\<not> list_all is_digit k \<Longrightarrow>
   JSON_members acc (quote k @ CHR '':'' # quote v @ CHR '','' # rest)
     = JSON_members (AList.update k (JStr v) acc) rest"
  by (subst JSON_members.simps)
    (simp add: skip_ws_quote JSON_string_quote skip_ws_punct JSON_value_quote length_quote)

lemma JSON_members_last:
  "\<not> list_all is_digit k \<Longrightarrow>
   JSON_members acc (quote k @ CHR '':'' # quote v @ CHR ''}'' # rest)
     = Parsed (JObj (AList.update k (JStr v) acc)) rest"
  by (subst JSON_members.simps)
    (simp add: skip_ws_quote JSON_string_quote skip_ws_punct JSON_value_quote length_quote)

lemma JSON_value_book: "JSON_value (JSON_stringify_book b @ rest) = Parsed (book_val b) rest"
  by (subst JSON_value.simps)
    (simp add: JSON_stringify_book_def skip_ws_punct skip_ws_quote JSON_members_more
      JSON_members_last is_digit_def book_val_def)

lemma length_stringify_book: "JSON_stringify_book b \<noteq> []"
  by (simp add: JSON_stringify_book_def)

lemma JSON_elements_books:
  "JSON_elements acc (join (map JSON_stringify_book (b # bs)) @ CHR '']'' # rest)
     = Parsed (JArr (acc @ map book_val (b # bs))) rest"
proof (induction bs arbitrary: acc b)
  case Nil
  show ?case
    by (subst JSON_elements.simps)
      (simp add: JSON_value_book length_stringify_book skip_ws_punct)
next
  case (Cons c cs)
  have "JSON_elements acc (join (map JSON_stringify_book (b # c # cs)) @ CHR '']'' # rest)
      = JSON_elements (acc @ [book_val b]) (join (map JSON_stringify_book (c # cs)) @ CHR '']'' # rest)"
    by (subst JSON_elements.simps)
      (simp add: JSON_value_book length_stringify_book skip_ws_punct)
  also have "\<dots> = Parsed (JArr ((acc @ [book_val b]) @ map book_val (c # cs))) rest"
    by (rule Cons.IH)
  finally show ?case by simp
qed

lemma JSON_parse_stringify:
  "JSON_parse beyond (JSON_stringify C) = Inr (JArr (map book_val C))"
proof (cases C)
  case Nil
  show ?thesis
    unfolding Nil JSON_parse_def JSON_stringify_def
    by (subst JSON_value.simps) (simp add: skip_ws_punct)
next
  case (Cons b bs)
  have "JSON_value (CHR ''['' # join (map JSON_stringify_book (b # bs)) @ CHR '']'' # [])
      = JSON_elements [] (join (map JSON_stringify_book (b # bs)) @ CHR '']'' # [])"
  proof (cases bs)
    case Nil
    show ?thesis
      unfolding Nil
      by (subst JSON_value.simps)
        (simp add: skip_ws_punct JSON_stringify_book_def)
  next
    case (Cons c cs)
    show ?thesis
      unfolding Cons
      by (subst JSON_value.simps)
        (simp add: skip_ws_punct JSON_stringify_book_def)
  qed
  also have "\<dots> = Parsed (JArr ([] @ map book_val (b # bs))) []"
    by (rule JSON_elements_books)
  finally have "JSON_value (JSON_stringify C) = Parsed (JArr (map book_val C)) []"
    by (simp add: Cons JSON_stringify_def)
  then show ?thesis
    by (simp add: JSON_parse_def skip_ws_punct)
qed

lemma JSON_stringify_not_empty: "JSON_stringify C \<noteq> []"
  by (simp add: JSON_stringify_def)

lemma JSON_parse_empty: "JSON_parse beyond [] = Inl SyntaxError"
  unfolding JSON_parse_def by (subst JSON_value.simps) (simp add: skip_ws_def)

section \<open>The parser consumes its input\<close>

text \<open>
  Every parser that succeeds leaves a rest shorter than its input, so the tests on the
  lengths in \<open>JSON_elements\<close> and \<open>JSON_members\<close> hold whenever they are reached.
\<close>

lemma JSON_string_consumes: "JSON_string s = Parsed t r \<Longrightarrow> length r < length s"
proof (induction "length s" arbitrary: s t r rule: less_induct)
  case less
  have IH: "\<And>s' t' r'. JSON_string s' = Parsed t' r' \<Longrightarrow> length s' < length s \<Longrightarrow> length r' < length s"
    using less.hyps by fastforce
  show ?case
  proof (cases s)
    case Nil
    with less.prems show ?thesis by simp
  next
    case (Cons c cs)
    with less.prems show ?thesis
      by (auto split: if_splits list.splits option.splits prod.splits parsed.splits dest!: IH)
  qed
qed

lemma JSON_int_consumes: "JSON_int s = Some (q, r) \<Longrightarrow> length r < length s"
  by (auto simp: JSON_int_def split: list.splits if_splits
      intro: le_less_trans [OF length_dropWhile_le])

lemma JSON_frac_consumes: "JSON_frac s = Some (q, r) \<Longrightarrow> length r \<le> length s"
  by (auto simp: JSON_frac_def Let_def split: list.splits if_splits
      intro: le_trans [OF length_dropWhile_le])

lemma JSON_exp_consumes: "JSON_exp s = Some (q, r) \<Longrightarrow> length r \<le> length s"
  by (auto simp: JSON_exp_def Let_def split: list.splits if_splits
      intro: le_trans [OF length_dropWhile_le])

lemma JSON_number_consumes: "JSON_number s = Parsed q r \<Longrightarrow> length r < length s"
proof -
  assume a: "JSON_number s = Parsed q r"
  then obtain i s1 f s2 x where
    i: "JSON_int (if (case s of [] \<Rightarrow> False | g # _ \<Rightarrow> g = CHR ''-'') then tl s else s) = Some (i, s1)"
    and f: "JSON_frac s1 = Some (f, s2)" and x: "JSON_exp s2 = Some (x, r)"
    by (auto simp: JSON_number_def Let_def split: option.splits if_splits)
  from JSON_int_consumes [OF i] have "length s1 < length s"
    by (auto split: if_splits)
  with JSON_frac_consumes [OF f] JSON_exp_consumes [OF x] show ?thesis by simp
qed

lemma JSON_elements_consumes:
  "JSON_elements acc s = Parsed v r \<Longrightarrow> length r < length s"
proof (induction "length s" arbitrary: s acc rule: less_induct)
  case less
  from less.prems have "\<exists>v0 r0 d ds.
      length r0 < length s \<and> skip_ws r0 = d # ds \<and>
      ((d = CHR '','' \<and> JSON_elements (acc @ [v0]) ds = Parsed v r) \<or> r = ds)"
    apply (subst (asm) JSON_elements.simps)
    apply (clarsimp split: parsed.splits if_splits list.splits)
     apply blast
    apply blast
    done
  then obtain v0 r0 d ds where
    r0: "length r0 < length s" and ws: "skip_ws r0 = d # ds"
    and rest: "(d = CHR '','' \<and> JSON_elements (acc @ [v0]) ds = Parsed v r) \<or> r = ds"
    by blast
  from ws r0 have ds: "length ds < length s"
    using skip_ws_Cons_length [OF ws] by simp
  from rest show ?case
  proof
    assume "d = CHR '','' \<and> JSON_elements (acc @ [v0]) ds = Parsed v r"
    then have "length r < length ds" using less.hyps [OF ds] by blast
    with ds show ?thesis by simp
  next
    assume "r = ds"
    with ds show ?thesis by simp
  qed
qed

lemma JSON_members_consumes:
  "JSON_members acc s = Parsed v r \<Longrightarrow> length r < length s"
proof (induction "length s" arbitrary: s acc rule: less_induct)
  case less
  from less.prems have "\<exists>k v0 (r1 :: string) r2 d ds.
      length r1 < length s \<and> length r2 < length r1 \<and> skip_ws r2 = d # ds \<and>
      ((d = CHR '','' \<and> JSON_members (AList.update k v0 acc) ds = Parsed v r) \<or> r = ds)"
    apply (subst (asm) JSON_members.simps)
    apply (clarsimp split: parsed.splits if_splits list.splits)
     apply blast
    apply blast
    done
  then obtain k v0 and r1 :: string and r2 d ds where
    r1: "length r1 < length s" and r2: "length r2 < length r1" and ws: "skip_ws r2 = d # ds"
    and rest: "(d = CHR '','' \<and> JSON_members (AList.update k v0 acc) ds = Parsed v r) \<or> r = ds"
    by blast
  from r1 r2 have ds: "length ds < length s"
    using skip_ws_Cons_length [OF ws] by simp
  from rest show ?case
  proof
    assume "d = CHR '','' \<and> JSON_members (AList.update k v0 acc) ds = Parsed v r"
    then have "length r < length ds" using less.hyps [OF ds] by blast
    with ds show ?thesis by simp
  next
    assume "r = ds"
    with ds show ?thesis by simp
  qed
qed

lemma JSON_value_consumes:
  "JSON_value s = Parsed v r \<Longrightarrow> length r < length s"
  apply (subst (asm) JSON_value.simps)
  apply (clarsimp split: list.splits if_splits parsed.splits)
  apply (auto dest!: JSON_string_consumes JSON_number_consumes JSON_elements_consumes
      JSON_members_consumes skip_ws_Cons_length)
  done

section \<open>Where the model of the parser is silent\<close>

text \<open>
  On these texts \<open>JSON_value\<close> makes no statement, and \<open>JSON_parse\<close> hands the answer
  to the host: a code unit above \<^verbatim>\<open>00ff\<close>, an integer above \<open>2 ^ 53\<close>, a number that
  overflows, a negative zero, and a key made of digits.
\<close>

lemma JSON_value_silent:
  "JSON_value (CHR 0x22 # CHR 0x5C # ''u0100'' @ [CHR 0x22]) = Unmodelled"
  "JSON_value ''9007199254740993'' = Unmodelled"
  "JSON_value ''1e400'' = Unmodelled"
  "JSON_value ''-0'' = Unmodelled"
  "JSON_value (CHR ''{'' # quote ''1'' @ '':true}'') = Unmodelled"
  by (simp_all add: JSON_value.simps JSON_members.simps skip_ws_def is_ws_def JSON_number_def
      JSON_int_def JSON_frac_def JSON_exp_def is_digit_def digits_val_def quote_def
      escape_char_def escapes_def hex_val_def)

lemma JSON_parse_beyond:
  "JSON_value text = Unmodelled \<Longrightarrow> JSON_parse beyond text = beyond text"
  by (simp add: JSON_parse_def)

section \<open>Properties of the store\<close>

lemma init_absent:
  "getItem (localStorage w) key = None \<Longrightarrow>
   useLocalStorage_init parse key initialValue w = w\<lparr>storedValue := initialValue\<rparr>"
  by (simp add: useLocalStorage_init_def)

lemma init_empty:
  "getItem (localStorage w) key = Some [] \<Longrightarrow>
   useLocalStorage_init parse key initialValue w = w\<lparr>storedValue := initialValue\<rparr>"
  by (simp add: useLocalStorage_init_def)

lemma init_parsed:
  "getItem (localStorage w) key = Some item \<Longrightarrow> item \<noteq> [] \<Longrightarrow> parse item = Inr v \<Longrightarrow>
   useLocalStorage_init parse key initialValue w = w\<lparr>storedValue := v\<rparr>"
  by (simp add: useLocalStorage_init_def)

lemma init_failed:
  "getItem (localStorage w) key = Some item \<Longrightarrow> parse item = Inl e \<Longrightarrow>
   useLocalStorage_init parse key initialValue w =
     (if item = [] then w\<lparr>storedValue := initialValue\<rparr>
      else w\<lparr>console := console w @ [e], storedValue := initialValue\<rparr>)"
  by (simp add: useLocalStorage_init_def)

lemma setValue_accepted:
  "accepts (localStorage w) key (JSON_stringify C) \<Longrightarrow>
   setValue key (Inl C) w =
     w\<lparr>storedValue := JArr (map book_val C),
       localStorage := (localStorage w)\<lparr>items := (items (localStorage w))(key \<mapsto> JSON_stringify C)\<rparr>\<rparr>"
  by (simp add: setValue_def setItem_def)

text \<open>
  C6. Saving a collection under the key \<^verbatim>\<open>books\<close>, in a store that takes the write,
  puts there the JSON array of its \<^verbatim>\<open>{title, author, year}\<close> objects in order, and
  loading that key afterwards, in the same or in a later session on that store, gives
  back the collection: same records, same order, same field values, nothing logged.
  The text that is saved lies within what \<open>JSON_value\<close> models, so this holds whatever
  the host's parser does beyond.
\<close>

theorem save_load_round_trip:
  assumes "accepts (localStorage w) ''books'' (JSON_stringify C)"
    and "localStorage w' = localStorage (setValue ''books'' (Inl C) w)"
  shows "getItem (localStorage w') ''books'' = Some (JSON_stringify C) \<and>
    storedValue (useLocalStorage_init (JSON_parse beyond) ''books'' (JArr []) w')
      = JArr (map book_val C) \<and>
    console (useLocalStorage_init (JSON_parse beyond) ''books'' (JArr []) w') = console w'"
proof -
  from assms have item: "getItem (localStorage w') ''books'' = Some (JSON_stringify C)"
    by (simp add: setValue_accepted getItem_def)
  have "useLocalStorage_init (JSON_parse beyond) ''books'' (JArr []) w'
      = w'\<lparr>storedValue := JArr (map book_val C)\<rparr>"
    using item JSON_stringify_not_empty [of C] JSON_parse_stringify [of beyond C]
    by (rule init_parsed)
  then show ?thesis by (simp add: item)
qed

theorem save_load_round_trip_witness:
  "storedValue (useLocalStorage_init (JSON_parse (\<lambda>_. Inl SyntaxError)) ''books'' (JArr [])
     (setValue ''books'' (Inl [\<lparr>title = ''Dune'', author = ''Herbert'', year = ''1965''\<rparr>])
        \<lparr>localStorage = \<lparr>items = Map.empty, accepts = \<lambda>_ _. True\<rparr>, console = [], storedValue = JArr []\<rparr>))
   = JArr [JObj [(''title'', JStr ''Dune''), (''author'', JStr ''Herbert''), (''year'', JStr ''1965'')]]"
  using save_load_round_trip
    [of "\<lparr>localStorage = \<lparr>items = Map.empty, accepts = \<lambda>_ _. True\<rparr>, console = [], storedValue = JArr []\<rparr>"
        "[\<lparr>title = ''Dune'', author = ''Herbert'', year = ''1965''\<rparr>]"
        "setValue ''books'' (Inl [\<lparr>title = ''Dune'', author = ''Herbert'', year = ''1965''\<rparr>])
           \<lparr>localStorage = \<lparr>items = Map.empty, accepts = \<lambda>_ _. True\<rparr>, console = [], storedValue = JArr []\<rparr>"
        "\<lambda>_. Inl SyntaxError"]
  by (simp add: book_val_def)

text \<open>
  C7, as the claim states it, fails on the absent key: the initial value is returned
  straight from the conditional, the parser is not called, no exception arises and
  nothing is logged.
\<close>

theorem absent_key_logs_nothing:
  "storedValue (useLocalStorage_init (JSON_parse (\<lambda>_. Inl SyntaxError)) ''books'' (JArr [])
      \<lparr>localStorage = \<lparr>items = Map.empty, accepts = \<lambda>_ _. True\<rparr>, console = [], storedValue = JUndefined\<rparr>)
     = JArr [] \<and>
   console (useLocalStorage_init (JSON_parse (\<lambda>_. Inl SyntaxError)) ''books'' (JArr [])
      \<lparr>localStorage = \<lparr>items = Map.empty, accepts = \<lambda>_ _. True\<rparr>, console = [], storedValue = JUndefined\<rparr>)
     = []"
  by (simp add: useLocalStorage_init_def getItem_def)

text \<open>
  C7, amended. Whatever the parser is and whatever values it returns: a stored value
  that decodes loads as the decoded value, so every stored value that encodes a sequence
  of book records, in any layout, loads as that sequence, and nothing is logged. A
  stored value that fails to decode loads as the initial value, which \<^verbatim>\<open>App\<close> passes as
  the empty collection, and the failure is logged. An absent key and the empty string
  load as the initial value and nothing is logged. No case raises to the caller: the
  result is always a value of the hook. (The first two cases speak of a non-empty
  stored string; \<^verbatim>\<open>JSON.parse\<close> decodes no empty one.)
\<close>

theorem load_fallback:
  "(getItem (localStorage w) key = Some item \<and> item \<noteq> [] \<and> parse item = Inr v \<longrightarrow>
      storedValue (useLocalStorage_init parse key initialValue w) = v \<and>
      console (useLocalStorage_init parse key initialValue w) = console w) \<and>
   (getItem (localStorage w) key = Some item \<and> item \<noteq> [] \<and> parse item = Inl e \<longrightarrow>
      storedValue (useLocalStorage_init parse key initialValue w) = initialValue \<and>
      console (useLocalStorage_init parse key initialValue w) = console w @ [e]) \<and>
   (getItem (localStorage w) key = None \<or> getItem (localStorage w) key = Some [] \<longrightarrow>
      storedValue (useLocalStorage_init parse key initialValue w) = initialValue \<and>
      console (useLocalStorage_init parse key initialValue w) = console w)"
proof (intro conjI impI)
  assume "getItem (localStorage w) key = Some item \<and> item \<noteq> [] \<and> parse item = Inr v"
  then have "useLocalStorage_init parse key initialValue w = w\<lparr>storedValue := v\<rparr>"
    using init_parsed [of w key item parse v initialValue] by blast
  then show "storedValue (useLocalStorage_init parse key initialValue w) = v"
    and "console (useLocalStorage_init parse key initialValue w) = console w"
    by simp_all
next
  assume "getItem (localStorage w) key = Some item \<and> item \<noteq> [] \<and> parse item = Inl e"
  then have item: "getItem (localStorage w) key = Some item" and ne: "item \<noteq> []"
    and e: "parse item = Inl e" by simp_all
  from init_failed [of w key item parse e initialValue] item e ne
  show "storedValue (useLocalStorage_init parse key initialValue w) = initialValue"
    and "console (useLocalStorage_init parse key initialValue w) = console w @ [e]"
    by simp_all
next
  assume "getItem (localStorage w) key = None \<or> getItem (localStorage w) key = Some []"
  then have "useLocalStorage_init parse key initialValue w = w\<lparr>storedValue := initialValue\<rparr>"
    using init_absent [of w key parse initialValue] init_empty [of w key parse initialValue] by blast
  then show "storedValue (useLocalStorage_init parse key initialValue w) = initialValue"
    and "console (useLocalStorage_init parse key initialValue w) = console w"
    by simp_all
qed

lemmas JSON_eval =
  JSON_parse_def JSON_value.simps JSON_elements.simps JSON_members.simps skip_ws_def is_ws_def
  JSON_number_def JSON_int_def JSON_frac_def JSON_exp_def is_digit_def digits_val_def
  quote_def escape_char_def escapes_def

lemma JSON_parse_spaced:
  "JSON_parse beyond spaced_text
     = Inr (JArr [book_val \<lparr>title = ''Dune'', author = ''Herbert'', year = ''1965''\<rparr>])"
  by (simp add: spaced_text_def book_val_def JSON_eval)

lemma spaced_text_not_empty: "spaced_text \<noteq> []"
  by (simp add: spaced_text_def)

lemma JSON_parse_garbage: "JSON_parse beyond ''{x}'' = Inl SyntaxError"
  by (simp add: JSON_eval)

theorem load_fallback_witness:
  "storedValue (useLocalStorage_init (JSON_parse (\<lambda>_. Inl SyntaxError)) ''books'' (JArr [])
      \<lparr>localStorage = \<lparr>items = [''books'' \<mapsto> spaced_text], accepts = \<lambda>_ _. True\<rparr>,
       console = [], storedValue = JUndefined\<rparr>)
     = JArr [book_val \<lparr>title = ''Dune'', author = ''Herbert'', year = ''1965''\<rparr>] \<and>
   console (useLocalStorage_init (JSON_parse (\<lambda>_. Inl SyntaxError)) ''books'' (JArr [])
      \<lparr>localStorage = \<lparr>items = [''books'' \<mapsto> spaced_text], accepts = \<lambda>_ _. True\<rparr>,
       console = [], storedValue = JUndefined\<rparr>) = [] \<and>
   storedValue (useLocalStorage_init (JSON_parse (\<lambda>_. Inl SyntaxError)) ''books'' (JArr [])
      \<lparr>localStorage = \<lparr>items = [''books'' \<mapsto> ''{x}''], accepts = \<lambda>_ _. True\<rparr>,
       console = [], storedValue = JUndefined\<rparr>) = JArr [] \<and>
   console (useLocalStorage_init (JSON_parse (\<lambda>_. Inl SyntaxError)) ''books'' (JArr [])
      \<lparr>localStorage = \<lparr>items = [''books'' \<mapsto> ''{x}''], accepts = \<lambda>_ _. True\<rparr>,
       console = [], storedValue = JUndefined\<rparr>) = [SyntaxError] \<and>
   console (useLocalStorage_init (JSON_parse (\<lambda>_. Inl SyntaxError)) ''books'' (JArr [])
      \<lparr>localStorage = \<lparr>items = [''books'' \<mapsto> []], accepts = \<lambda>_ _. True\<rparr>,
       console = [], storedValue = JUndefined\<rparr>) = []"
  using load_fallback
    [of "\<lparr>localStorage = \<lparr>items = [''books'' \<mapsto> spaced_text], accepts = \<lambda>_ _. True\<rparr>,
          console = [], storedValue = JUndefined\<rparr>" "''books''" spaced_text
        "JSON_parse (\<lambda>_. Inl SyntaxError)"
        "JArr [book_val \<lparr>title = ''Dune'', author = ''Herbert'', year = ''1965''\<rparr>]" "JArr []"
        SyntaxError]
    load_fallback
    [of "\<lparr>localStorage = \<lparr>items = [''books'' \<mapsto> ''{x}''], accepts = \<lambda>_ _. True\<rparr>,
          console = [], storedValue = JUndefined\<rparr>" "''books''" "''{x}''"
        "JSON_parse (\<lambda>_. Inl SyntaxError)" JNull "JArr []" SyntaxError]
    load_fallback
    [of "\<lparr>localStorage = \<lparr>items = [''books'' \<mapsto> []], accepts = \<lambda>_ _. True\<rparr>,
          console = [], storedValue = JUndefined\<rparr>" "''books''" "[]"
        "JSON_parse (\<lambda>_. Inl SyntaxError)" JNull "JArr []" SyntaxError]
  by (simp add: getItem_def JSON_parse_spaced spaced_text_not_empty JSON_parse_garbage)

text \<open>
  C10. Load checks nothing beyond JSON parsing. Whatever the parser is and whatever
  kind of value it returns: whenever the stored string parses, that value becomes the
  initial collection as it is and nothing is logged; the initial value stands in when
  the key is absent or when parsing the stored string throws. (A stored string that
  parses is not empty, since \<^verbatim>\<open>JSON.parse\<close> throws on the empty text; the empty string
  is answered with the initial value without the call.)
\<close>

theorem load_returns_parsed_value:
  "(getItem (localStorage w) key = Some item \<and> item \<noteq> [] \<and> parse item = Inr v \<longrightarrow>
      useLocalStorage_init parse key initialValue w = w\<lparr>storedValue := v\<rparr>) \<and>
   (getItem (localStorage w) key = None \<or>
    (getItem (localStorage w) key = Some item \<and> parse item = Inl e) \<longrightarrow>
      storedValue (useLocalStorage_init parse key initialValue w) = initialValue)"
proof (intro conjI impI)
  assume "getItem (localStorage w) key = Some item \<and> item \<noteq> [] \<and> parse item = Inr v"
  then show "useLocalStorage_init parse key initialValue w = w\<lparr>storedValue := v\<rparr>"
    using init_parsed [of w key item parse v initialValue] by blast
next
  assume "getItem (localStorage w) key = None \<or>
    (getItem (localStorage w) key = Some item \<and> parse item = Inl e)"
  then show "storedValue (useLocalStorage_init parse key initialValue w) = initialValue"
    using init_absent [of w key parse initialValue] init_failed [of w key item parse e initialValue]
    by auto
qed

lemma JSON_parse_number: "JSON_parse beyond ''42'' = Inr (JNum 42)"
  by (simp add: JSON_eval)

lemma JSON_parse_object:
  "JSON_parse beyond (CHR ''{'' # quote ''n'' @ '':7}'') = Inr (JObj [(''n'', JNum 7)])"
  by (simp add: JSON_eval)

theorem load_returns_parsed_value_witness:
  "storedValue (useLocalStorage_init (JSON_parse (\<lambda>_. Inl SyntaxError)) ''books'' (JArr [])
      \<lparr>localStorage = \<lparr>items = [''books'' \<mapsto> ''42''], accepts = \<lambda>_ _. True\<rparr>,
       console = [], storedValue = JUndefined\<rparr>) = JNum 42 \<and>
   storedValue (useLocalStorage_init (JSON_parse (\<lambda>_. Inl SyntaxError)) ''books'' (JArr [])
      \<lparr>localStorage = \<lparr>items = [''books'' \<mapsto> ''{'' @ quote ''n'' @ '':7}''], accepts = \<lambda>_ _. True\<rparr>,
       console = [], storedValue = JUndefined\<rparr>) = JObj [(''n'', JNum 7)] \<and>
   storedValue (useLocalStorage_init (JSON_parse (\<lambda>_. Inl SyntaxError)) ''books'' (JArr [])
      \<lparr>localStorage = \<lparr>items = Map.empty, accepts = \<lambda>_ _. True\<rparr>,
       console = [], storedValue = JUndefined\<rparr>) = JArr []"
  using load_returns_parsed_value
    [of "\<lparr>localStorage = \<lparr>items = [''books'' \<mapsto> ''42''], accepts = \<lambda>_ _. True\<rparr>,
          console = [], storedValue = JUndefined\<rparr>" "''books''" "''42''"
        "JSON_parse (\<lambda>_. Inl SyntaxError)" "JNum 42" "JArr []" SyntaxError]
    load_returns_parsed_value
    [of "\<lparr>localStorage = \<lparr>items = [''books'' \<mapsto> ''{'' @ quote ''n'' @ '':7}''], accepts = \<lambda>_ _. True\<rparr>,
          console = [], storedValue = JUndefined\<rparr>" "''books''" "''{'' @ quote ''n'' @ '':7}''"
        "JSON_parse (\<lambda>_. Inl SyntaxError)" "JObj [(''n'', JNum 7)]" "JArr []" SyntaxError]
    load_returns_parsed_value
    [of "\<lparr>localStorage = \<lparr>items = Map.empty, accepts = \<lambda>_ _. True\<rparr>,
          console = [], storedValue = JUndefined\<rparr>" "''books''" "[]"
        "JSON_parse (\<lambda>_. Inl SyntaxError)" JNull "JArr []" SyntaxError]
  by (simp add: getItem_def JSON_parse_number JSON_parse_object)

end
